theory Spec2Isabelle
  imports Complex_Main
begin

section \<open>Weight-training description parser (scripts/parse\_weight\_training.py)\<close>

text \<open>
  A shallow embedding of the three functions of the module: \<open>parse_set_line\<close>,
  \<open>parse_weight_training_description\<close> and \<open>get_weight_training_metrics\<close>.

  Modelling decisions, each visible in a definition below:
  \<^item> A Python \<open>str\<close> is a list of code points. A \<open>char\<close> stands for one code point below
    256 (Latin-1), so \<open>length\<close> counts what \<open>len\<close> counts and the multiplication sign
    U+00D7 is the single character \<open>CHR 0xD7\<close>. Code points from 256 on are outside the
    model.
  \<^item> A Python \<open>float\<close> is the rational number it denotes and float arithmetic is exact:
    rounding error, infinities and NaN are outside the model. \<open>round(v, 2)\<close> is rounding
    to the nearest multiple of 1/100, ties to even.
  \<^item> A Python \<open>int\<close> is an \<open>int\<close>.
  \<^item> \<open>re.search\<close> is a backtracking matcher over a small regular-expression datatype; it
    lists the ways a pattern can match at a position in the order the backtracking engine
    tries them, and the first one is the match.
  \<^item> \<open>int(...)\<close>, \<open>float(...)\<close> and \<open>match.group(...)\<close> can raise; the exception is an
    \<open>Inl\<close> value.
\<close>

subsection \<open>Characters and strings\<close>

text \<open>\<open>\d\<close> in a \<open>str\<close> pattern: the decimal digits; below 256 these are \<open>0\<close> to \<open>9\<close>.\<close>

definition is_digit :: "char \<Rightarrow> bool" where
  "is_digit c = (c \<in> set ''0123456789'')"

text \<open>
  \<open>\s\<close> in a \<open>str\<close> pattern and the characters \<open>str.strip()\<close> removes: the Unicode
  whitespace characters; below 256 these are U+0009 to U+000D, U+001C to U+0020, U+0085
  and U+00A0.
\<close>

definition is_space :: "char \<Rightarrow> bool" where
  "is_space c = (c \<in> set [CHR 0x09, CHR 0x0A, CHR 0x0B, CHR 0x0C, CHR 0x0D,
                           CHR 0x1C, CHR 0x1D, CHR 0x1E, CHR 0x1F, CHR 0x20,
                           CHR 0x85, CHR 0xA0])"

text \<open>
  \<open>str.lower()\<close> on one character: \<open>A\<close> to \<open>Z\<close> and the Latin-1 capitals U+00C0 to U+00DE
  (the multiplication sign U+00D7 is not a letter) move up by 32.
\<close>

definition lower_char :: "char \<Rightarrow> char" where
  "lower_char c =
     (let n = (of_char c :: nat)
      in if (65 \<le> n \<and> n \<le> 90) \<or> (192 \<le> n \<and> n \<le> 222 \<and> n \<noteq> 215)
         then char_of (n + 32) else c)"

definition lower :: "string \<Rightarrow> string" where
  "lower s = map lower_char s"

text \<open>\<open>s.startswith(p)\<close>.\<close>

definition startswith :: "string \<Rightarrow> string \<Rightarrow> bool" where
  "startswith s p = (take (length p) s = p)"

text \<open>\<open>p in s\<close> for strings: \<open>p\<close> occurs in \<open>s\<close> as a contiguous substring.\<close>

fun contains :: "string \<Rightarrow> string \<Rightarrow> bool" where
  "contains [] p = (p = [])"
| "contains (c # cs) p = (startswith (c # cs) p \<or> contains cs p)"

text \<open>\<open>s.strip()\<close>: leading and trailing whitespace removed.\<close>

definition strip :: "string \<Rightarrow> string" where
  "strip s = rev (dropWhile is_space (rev (dropWhile is_space s)))"

text \<open>
  \<open>s.split('\n')\<close>: the pieces between newlines, in order; always at least one piece.
\<close>

fun split_lines :: "string \<Rightarrow> string list" where
  "split_lines [] = [[]]"
| "split_lines (c # cs) =
     (if c = CHR 0x0A then [] # split_lines cs
      else (case split_lines cs of
              [] \<Rightarrow> [[c]]
            | l # ls \<Rightarrow> (c # l) # ls))"

subsection \<open>Regular expressions and \<open>re.search\<close>\<close>

text \<open>
  The constructs the two patterns of the module use. \<open>Star\<close> and \<open>Plus\<close> repeat a single
  character class, as every \<open>*\<close> and \<open>+\<close> in the source does; \<open>(?:...)\<close> is plain nesting;
  \<open>Group n\<close> is the \<open>n\<close>-th capturing group.
\<close>

datatype atom = Digit | Space | OneOf string

datatype regex =
    Atom atom
  | Str string
  | Seq regex regex
  | Alt regex regex
  | Opt regex
  | Star atom
  | Plus atom
  | Group nat regex

type_synonym groups = "nat \<rightharpoonup> string"

fun atom_ok :: "atom \<Rightarrow> char \<Rightarrow> bool" where
  "atom_ok Digit c = is_digit c"
| "atom_ok Space c = is_space c"
| "atom_ok (OneOf cs) c = (c \<in> set cs)"

text \<open>
  The remainders after a greedy repetition of a class, longest match first: the order in
  which the engine gives characters back.
\<close>

fun star_atom :: "atom \<Rightarrow> string \<Rightarrow> string list" where
  "star_atom a [] = [[]]"
| "star_atom a (c # cs) = (if atom_ok a c then star_atom a cs @ [c # cs] else [c # cs])"

text \<open>
  All ways for a pattern to match a prefix of the text, as pairs of the groups captured
  and the text that remains, in the engine's order of preference.
\<close>

fun rmatch :: "regex \<Rightarrow> groups \<Rightarrow> string \<Rightarrow> (groups \<times> string) list" where
  "rmatch (Atom a) g s =
     (case s of [] \<Rightarrow> [] | c # cs \<Rightarrow> if atom_ok a c then [(g, cs)] else [])"
| "rmatch (Str w) g s = (if startswith s w then [(g, drop (length w) s)] else [])"
| "rmatch (Seq r1 r2) g s = concat (map (\<lambda>(g', s'). rmatch r2 g' s') (rmatch r1 g s))"
| "rmatch (Alt r1 r2) g s = rmatch r1 g s @ rmatch r2 g s"
| "rmatch (Opt r) g s = rmatch r g s @ [(g, s)]"
| "rmatch (Star a) g s = map (Pair g) (star_atom a s)"
| "rmatch (Plus a) g s =
     (case s of [] \<Rightarrow> [] | c # cs \<Rightarrow> if atom_ok a c then map (Pair g) (star_atom a cs) else [])"
| "rmatch (Group n r) g s =
     map (\<lambda>(g', s'). (g'(n \<mapsto> take (length s - length s') s), s')) (rmatch r g s)"

text \<open>
  \<open>re.search(pattern, text)\<close>: the match at the leftmost position where the pattern
  matches, or \<open>None\<close>. The match object is represented by its groups.
\<close>

fun re_search :: "regex \<Rightarrow> string \<Rightarrow> groups option" where
  "re_search r [] = (case rmatch r Map.empty [] of [] \<Rightarrow> None | (g, _) # _ \<Rightarrow> Some g)"
| "re_search r (c # cs) =
     (case rmatch r Map.empty (c # cs) of [] \<Rightarrow> re_search r cs | (g, _) # _ \<Rightarrow> Some g)"

text \<open>\<open>match.group(n)\<close>: the text of group \<open>n\<close>, Python's \<open>None\<close> if it took no part.\<close>

definition match_group :: "groups \<Rightarrow> nat \<Rightarrow> string option" where
  "match_group m n = m n"

subsection \<open>\<open>int(...)\<close> and \<open>float(...)\<close>\<close>

datatype py_error = TypeError | ValueError

definition digits_value :: "string \<Rightarrow> nat" where
  "digits_value s = foldl (\<lambda>acc c. 10 * acc + (of_char c - 48)) 0 s"

definition is_digits :: "string \<Rightarrow> bool" where
  "is_digits s = (s \<noteq> [] \<and> list_all is_digit s)"

text \<open>
  \<open>int(x)\<close> on what \<open>match.group\<close> returns. A string of decimal digits is read as a
  number; \<open>None\<close> raises TypeError. Python's \<open>int\<close> also reads signs, underscores and
  surrounding blanks; the pattern's groups never hold such strings, and the model answers
  ValueError for everything that is not a plain digit string.
\<close>

fun py_int :: "string option \<Rightarrow> py_error + int" where
  "py_int None = Inl TypeError"
| "py_int (Some s) = (if is_digits s then Inr (int (digits_value s)) else Inl ValueError)"

text \<open>
  \<open>float(x)\<close> on what \<open>match.group\<close> returns: digits, or digits, a point and digits, read
  as the decimal number written. As for \<open>py_int\<close>, every other string is answered with
  ValueError.
\<close>

fun py_float :: "string option \<Rightarrow> py_error + rat" where
  "py_float None = Inl TypeError"
| "py_float (Some s) =
     (let ip = takeWhile is_digit s; rest = dropWhile is_digit s
      in if ip = [] then Inl ValueError
         else (case rest of
                 [] \<Rightarrow> Inr (of_nat (digits_value ip))
               | c # fp \<Rightarrow>
                   if c = CHR ''.'' \<and> is_digits fp
                   then Inr (of_nat (digits_value (ip @ fp)) / 10 ^ length fp)
                   else Inl ValueError))"

text \<open>\<open>round(v, 2)\<close>: to the nearest multiple of 1/100, a tie going to the even one.\<close>

definition py_round2 :: "rat \<Rightarrow> rat" where
  "py_round2 v =
     (let y = v * 100; f = \<lfloor>y\<rfloor>; d = y - of_int f
      in of_int (if d < 1 / 2 then f
                 else if 1 / 2 < d then f + 1
                 else if even f then f else f + 1) / 100)"

subsection \<open>\<open>parse_set_line\<close>\<close>

text \<open>
  The pattern of line 22:
  \<^verbatim>\<open>(\d+(?:\.\d+)?)\s*(?:lbs?|pounds?|kg|kilograms?)?\s*[xX\<times>]\s*(\d+)\<close>
  (the last character of the class is U+00D7). No flag is passed to \<open>re.search\<close>, so the
  letters match as written.
\<close>

definition separator :: regex where
  "separator = Atom (OneOf [CHR ''x'', CHR ''X'', CHR 0xD7])"

definition unit_token :: regex where
  "unit_token =
     Alt (Seq (Str ''lb'') (Opt (Str ''s'')))
    (Alt (Seq (Str ''pound'') (Opt (Str ''s'')))
    (Alt (Str ''kg'')
         (Seq (Str ''kilogram'') (Opt (Str ''s'')))))"

definition set_pattern :: regex where
  "set_pattern =
     Seq (Group 1 (Seq (Plus Digit) (Opt (Seq (Str ''.'') (Plus Digit)))))
    (Seq (Star Space)
    (Seq (Opt unit_token)
    (Seq (Star Space)
    (Seq separator
    (Seq (Star Space)
         (Group 2 (Plus Digit)))))))"

text \<open>The factor of line 33.\<close>

definition kg_to_lbs :: rat where
  "kg_to_lbs = 2.20462"

text \<open>The test of line 32: \<open>'kg' in line.lower() or 'kilogram' in line.lower()\<close>.\<close>

definition mentions_kg :: "string \<Rightarrow> bool" where
  "mentions_kg line = (contains (lower line) ''kg'' \<or> contains (lower line) ''kilogram'')"

definition parse_set_line :: "string \<Rightarrow> py_error + (rat \<times> int) option" where
  "parse_set_line line =
     (case re_search set_pattern line of
        None \<Rightarrow> Inr None
      | Some m \<Rightarrow>
          (case py_float (match_group m 1) of
             Inl e \<Rightarrow> Inl e
           | Inr weight \<Rightarrow>
               (case py_int (match_group m 2) of
                  Inl e \<Rightarrow> Inl e
                | Inr reps \<Rightarrow>
                    Inr (Some (if mentions_kg line then weight * kg_to_lbs else weight, reps)))))"

subsection \<open>\<open>parse_weight_training_description\<close>\<close>

text \<open>The dictionary returned, with its four keys.\<close>

record metrics =
  total_volume_lbs :: rat
  total_sets :: int
  total_reps :: int
  exercise_count :: nat

text \<open>The local variables of the loop (lines 60 to 64).\<close>

record locals =
  total_volume :: rat
  sets_counted :: int
  reps_counted :: int
  exercises :: "string set"
  current_exercise :: "string option"

text \<open>The pattern of line 87: \<^verbatim>\<open>\d+\s*[xX\<times>]\s*\d+\<close>.\<close>

definition bare_pattern :: regex where
  "bare_pattern =
     Seq (Plus Digit) (Seq (Star Space) (Seq separator (Seq (Star Space) (Plus Digit))))"

text \<open>The condition of lines 87 to 91, on the stripped line.\<close>

definition looks_like_exercise :: "string \<Rightarrow> bool" where
  "looks_like_exercise line =
     (re_search bare_pattern line = None \<and>
      \<not> startswith (lower line) ''set '' \<and>
      \<not> startswith (lower line) ''logged with'' \<and>
      \<not> startswith (lower line) ''rep '' \<and>
      length line > 3)"

text \<open>
  One pass through the loop body (lines 67 to 93). \<open>if current_exercise:\<close> is false for
  \<open>None\<close> and for the empty string.
\<close>

definition loop_body :: "locals \<Rightarrow> string \<Rightarrow> py_error + locals" where
  "loop_body st raw =
     (let line = strip raw
      in if line = [] then Inr st
         else (case parse_set_line line of
                 Inl e \<Rightarrow> Inl e
               | Inr (Some (weight, reps)) \<Rightarrow>
                   Inr (st\<lparr>total_volume := total_volume st + weight * of_int reps,
                           sets_counted := sets_counted st + 1,
                           reps_counted := reps_counted st + reps,
                           exercises :=
                             (case current_exercise st of
                                None \<Rightarrow> exercises st
                              | Some name \<Rightarrow>
                                  if name = [] then exercises st
                                  else insert name (exercises st))\<rparr>)
               | Inr None \<Rightarrow>
                   if looks_like_exercise line
                   then Inr (st\<lparr>current_exercise := Some line\<rparr>)
                   else Inr st))"

fun loop :: "locals \<Rightarrow> string list \<Rightarrow> py_error + locals" where
  "loop st [] = Inr st"
| "loop st (raw # rest) =
     (case loop_body st raw of Inl e \<Rightarrow> Inl e | Inr st' \<Rightarrow> loop st' rest)"

definition initial_locals :: locals where
  "initial_locals =
     \<lparr>total_volume = 0, sets_counted = 0, reps_counted = 0,
      exercises = {}, current_exercise = None\<rparr>"

definition zero_metrics :: metrics where
  "zero_metrics =
     \<lparr>total_volume_lbs = 0, total_sets = 0, total_reps = 0, exercise_count = 0\<rparr>"

text \<open>
  The argument is \<open>None\<close> for Python's \<open>None\<close>, which the test suite passes.
  \<open>not description\<close> holds for \<open>None\<close> and for the empty string.
\<close>

definition parse_weight_training_description :: "string option \<Rightarrow> py_error + metrics" where
  "parse_weight_training_description description =
     (case description of
        None \<Rightarrow> Inr zero_metrics
      | Some text \<Rightarrow>
          if text = [] then Inr zero_metrics
          else (case loop initial_locals (split_lines text) of
                  Inl e \<Rightarrow> Inl e
                | Inr st \<Rightarrow>
                    Inr \<lparr>total_volume_lbs = py_round2 (total_volume st),
                         total_sets = sets_counted st,
                         total_reps = reps_counted st,
                         exercise_count = card (exercises st)\<rparr>))"

subsection \<open>\<open>get_weight_training_metrics\<close>\<close>

text \<open>
  The activity is a dictionary from keys to values; the value under \<open>description\<close> is a
  string or Python's \<open>None\<close> (\<open>None\<close> below). \<open>activity.get('description', '') or ''\<close>:
  the default applies to a missing key, and \<open>or\<close> replaces a false value (\<open>None\<close>, the
  empty string) by the empty string.
\<close>

type_synonym activity = "string \<rightharpoonup> string option"

definition dict_get :: "activity \<Rightarrow> string \<Rightarrow> string option \<Rightarrow> string option" where
  "dict_get d k dflt = (case d k of None \<Rightarrow> dflt | Some v \<Rightarrow> v)"

definition or_empty :: "string option \<Rightarrow> string" where
  "or_empty v = (case v of None \<Rightarrow> [] | Some s \<Rightarrow> if s = [] then [] else s)"

definition get_weight_training_metrics :: "activity \<Rightarrow> py_error + metrics" where
  "get_weight_training_metrics activity =
     parse_weight_training_description
       (Some (or_empty (dict_get activity ''description'' (Some []))))"

subsection \<open>Specification-side notions\<close>

text \<open>
  The words a pattern matches, as a set: the declarative reading of a regular expression,
  against which the backtracking matcher is proved sound and complete.
\<close>

fun lang :: "regex \<Rightarrow> string set" where
  "lang (Atom a) = {[c] | c. atom_ok a c}"
| "lang (Str w) = {w}"
| "lang (Seq r1 r2) = {u @ v | u v. u \<in> lang r1 \<and> v \<in> lang r2}"
| "lang (Alt r1 r2) = lang r1 \<union> lang r2"
| "lang (Opt r) = insert [] (lang r)"
| "lang (Star a) = {t. list_all (atom_ok a) t}"
| "lang (Plus a) = {t. t \<noteq> [] \<and> list_all (atom_ok a) t}"
| "lang (Group n r) = lang r"

text \<open>A pattern without capturing groups leaves the groups as they are.\<close>

fun group_free :: "regex \<Rightarrow> bool" where
  "group_free (Seq r1 r2) = (group_free r1 \<and> group_free r2)"
| "group_free (Alt r1 r2) = (group_free r1 \<and> group_free r2)"
| "group_free (Opt r) = group_free r"
| "group_free (Group n r) = False"
| "group_free _ = True"

text \<open>The inside of group 1 of the pattern of \<open>parse_set_line\<close>.\<close>

definition number_regex :: regex where
  "number_regex = Seq (Plus Digit) (Opt (Seq (Str ''.'') (Plus Digit)))"





subsection \<open>Inputs of the test suite\<close>

text \<open>The newline, and the descriptions of \<open>test_hevy_format\<close> and \<open>test_mixed_kg_lbs\<close>.\<close>

definition nl :: string where
  "nl = [CHR 0x0A]"

definition hevy_log :: string where
  "hevy_log =
     ''Logged with Hevy'' @ nl @
     nl @
     ''Chest Press (Machine)'' @ nl @
     ''Set 1: 175 lbs x 7'' @ nl @
     ''Set 2: 175 lbs x 6'' @ nl @
     ''Set 3: 170 lbs x 6 [Failure]'' @ nl @
     nl @
     ''Seated Shoulder Press (Machine)'' @ nl @
     ''Set 1: 125 lbs x 4'' @ nl @
     ''Set 2: 125 lbs x 5 [Failure]'' @ nl @
     ''Set 3: 120 lbs x 5 [Failure]'' @ nl @
     nl @
     ''Lateral Raise (Dumbbell)'' @ nl @
     ''Set 1: 50 lbs x 8'' @ nl @
     ''Set 2: 50 lbs x 7'' @ nl @
     ''Set 3: 50 lbs x 5'' @ nl @
     nl @
     ''Triceps Extension (Dumbbell)'' @ nl @
     ''Set 1: 55 lbs x 8'' @ nl @
     ''Set 2: 55 lbs x 8'' @ nl @
     ''Set 3: 55 lbs x 6''"

definition mixed_units_log :: string where
  "mixed_units_log =
     ''Exercise A'' @ nl @
     ''Set 1: 100 kg x 5'' @ nl @
     ''Exercise B'' @ nl @
     ''Set 1: 100 lbs x 5''"

section \<open>Properties of the matcher\<close>

lemma startswith_iff: "startswith s p \<longleftrightarrow> (\<exists>t. s = p @ t)"
  unfolding startswith_def
  by (metis append_eq_conv_conj append_take_drop_id)

lemma star_atom_last: "s \<in> set (star_atom a s)"
  by (cases s) auto

lemma star_atom_sound:
  "s' \<in> set (star_atom a s) \<Longrightarrow> \<exists>t. s = t @ s' \<and> list_all (atom_ok a) t"
proof (induction s)
  case Nil
  then show ?case by simp
next
  case (Cons c cs)
  show ?case
  proof (cases "s' = c # cs")
    case True
    then show ?thesis by simp
  next
    case False
    with Cons.prems have ok: "atom_ok a c" and mem: "s' \<in> set (star_atom a cs)"
      by (auto split: if_splits)
    from Cons.IH [OF mem] obtain t where "cs = t @ s'" "list_all (atom_ok a) t" by blast
    with ok have "c # cs = (c # t) @ s' \<and> list_all (atom_ok a) (c # t)" by simp
    then show ?thesis by blast
  qed
qed

lemma star_atom_complete:
  "list_all (atom_ok a) t \<Longrightarrow> s' \<in> set (star_atom a (t @ s'))"
  by (induction t) (auto simp: star_atom_last)

lemma rmatch_sound:
  "(g', s') \<in> set (rmatch r g s) \<Longrightarrow> \<exists>t \<in> lang r. s = t @ s'"
proof (induction r arbitrary: g s g' s')
  case (Atom a)
  then show ?case by (auto split: list.splits if_splits)
next
  case (Str w)
  then show ?case by (auto simp: startswith_iff split: if_splits)
next
  case (Seq r1 r2)
  from Seq.prems obtain g1 s1 where
    m1: "(g1, s1) \<in> set (rmatch r1 g s)" and m2: "(g', s') \<in> set (rmatch r2 g1 s1)"
    by auto
  from Seq.IH(1) [OF m1] obtain u where u: "u \<in> lang r1" "s = u @ s1" by blast
  from Seq.IH(2) [OF m2] obtain v where v: "v \<in> lang r2" "s1 = v @ s'" by blast
  from u v have "u @ v \<in> lang (Seq r1 r2) \<and> s = (u @ v) @ s'" by auto
  then show ?case by blast
next
  case (Alt r1 r2)
  then show ?case by (fastforce)
next
  case (Opt r)
  then show ?case by fastforce
next
  case (Star a)
  then show ?case by (auto dest: star_atom_sound)
next
  case (Plus a)
  from Plus.prems obtain c cs where s: "s = c # cs" and ok: "atom_ok a c"
    and mem: "s' \<in> set (star_atom a cs)"
    by (auto split: list.splits if_splits)
  from star_atom_sound [OF mem] obtain t where "cs = t @ s'" "list_all (atom_ok a) t"
    by blast
  with s ok have "c # t \<in> lang (Plus a) \<and> s = (c # t) @ s'" by simp
  then show ?case by blast
next
  case (Group n r)
  then show ?case by fastforce
qed

lemma rmatch_complete:
  "t \<in> lang r \<Longrightarrow> \<exists>g'. (g', s') \<in> set (rmatch r g (t @ s'))"
proof (induction r arbitrary: g t s')
  case (Atom a)
  then show ?case by auto
next
  case (Str w)
  then show ?case by (auto simp: startswith_iff)
next
  case (Seq r1 r2)
  from Seq.prems obtain u v where t: "t = u @ v" and u: "u \<in> lang r1" and v: "v \<in> lang r2"
    by auto
  from Seq.IH(1) [OF u] obtain g1 where m1: "(g1, v @ s') \<in> set (rmatch r1 g (u @ v @ s'))"
    by blast
  from Seq.IH(2) [OF v] obtain g2 where m2: "(g2, s') \<in> set (rmatch r2 g1 (v @ s'))"
    by blast
  from m1 m2 have "(g2, s') \<in> set (rmatch (Seq r1 r2) g (t @ s'))"
    unfolding t by force
  then show ?case by blast
next
  case (Alt r1 r2)
  then show ?case by (fastforce)
next
  case (Opt r)
  then show ?case by fastforce
next
  case (Star a)
  then have "(g, s') \<in> set (rmatch (Star a) g (t @ s'))"
    by (simp add: star_atom_complete)
  then show ?case by blast
next
  case (Plus a)
  then obtain c cs where t: "t = c # cs" and ok: "atom_ok a c" "list_all (atom_ok a) cs"
    by (cases t) auto
  then have "(g, s') \<in> set (rmatch (Plus a) g (t @ s'))"
    by (simp add: star_atom_complete)
  then show ?case by blast
next
  case (Group n r)
  from Group.prems have "t \<in> lang r" by simp
  from Group.IH [OF this] obtain g1 where "(g1, s') \<in> set (rmatch r g (t @ s'))" by blast
  then have "(g1(n \<mapsto> take (length (t @ s') - length s') (t @ s')), s')
               \<in> set (rmatch (Group n r) g (t @ s'))"
    by force
  then show ?case by blast
qed

lemma rmatch_group_free:
  "group_free r \<Longrightarrow> (g', s') \<in> set (rmatch r g s) \<Longrightarrow> g' = g"
proof (induction r arbitrary: g s g' s')
  case (Seq r1 r2)
  from Seq.prems obtain g1 s1 where
    m1: "(g1, s1) \<in> set (rmatch r1 g s)" and m2: "(g', s') \<in> set (rmatch r2 g1 s1)"
    by auto
  from Seq.prems Seq.IH(1) [OF _ m1] have "g1 = g" by simp
  with Seq.prems Seq.IH(2) [OF _ m2] show ?case by simp
qed (auto split: list.splits if_splits)

lemma rmatch_empty_iff:
  "rmatch r g s = [] \<longleftrightarrow> \<not> (\<exists>t q. s = t @ q \<and> t \<in> lang r)"
proof
  assume e: "rmatch r g s = []"
  show "\<not> (\<exists>t q. s = t @ q \<and> t \<in> lang r)"
  proof
    assume "\<exists>t q. s = t @ q \<and> t \<in> lang r"
    then obtain t q where "s = t @ q" "t \<in> lang r" by blast
    with rmatch_complete [of t r q g] e show False by auto
  qed
next
  assume n: "\<not> (\<exists>t q. s = t @ q \<and> t \<in> lang r)"
  show "rmatch r g s = []"
  proof (rule ccontr)
    assume "rmatch r g s \<noteq> []"
    then obtain g' s' where "(g', s') \<in> set (rmatch r g s)"
      by (cases "rmatch r g s") auto
    from rmatch_sound [OF this] n show False by blast
  qed
qed

lemma re_search_None_iff:
  "re_search r s = None \<longleftrightarrow> \<not> (\<exists>p t q. s = p @ t @ q \<and> t \<in> lang r)"
proof (induction s)
  case Nil
  have "re_search r [] = None \<longleftrightarrow> rmatch r Map.empty [] = []"
    by (simp split: list.splits)
  also have "\<dots> \<longleftrightarrow> \<not> (\<exists>t q. [] = t @ q \<and> t \<in> lang r)"
    by (rule rmatch_empty_iff)
  also have "\<dots> \<longleftrightarrow> \<not> (\<exists>p t q. [] = p @ t @ q \<and> t \<in> lang r)"
    by simp
  finally show ?case .
next
  case (Cons c cs)
  have here: "rmatch r Map.empty (c # cs) = [] \<longleftrightarrow>
              \<not> (\<exists>t q. c # cs = t @ q \<and> t \<in> lang r)"
    by (rule rmatch_empty_iff)
  have split: "(\<exists>p t q. c # cs = p @ t @ q \<and> t \<in> lang r) \<longleftrightarrow>
               (\<exists>t q. c # cs = t @ q \<and> t \<in> lang r) \<or>
               (\<exists>p t q. cs = p @ t @ q \<and> t \<in> lang r)"
  proof
    assume "\<exists>p t q. c # cs = p @ t @ q \<and> t \<in> lang r"
    then obtain p t q where eq: "c # cs = p @ t @ q" and t: "t \<in> lang r" by blast
    show "(\<exists>t q. c # cs = t @ q \<and> t \<in> lang r) \<or> (\<exists>p t q. cs = p @ t @ q \<and> t \<in> lang r)"
    proof (cases p)
      case Nil
      with eq t show ?thesis by auto
    next
      case (Cons c' p')
      with eq have "cs = p' @ t @ q" by simp
      with t show ?thesis by blast
    qed
  next
    assume "(\<exists>t q. c # cs = t @ q \<and> t \<in> lang r) \<or> (\<exists>p t q. cs = p @ t @ q \<and> t \<in> lang r)"
    then show "\<exists>p t q. c # cs = p @ t @ q \<and> t \<in> lang r"
    proof
      assume "\<exists>t q. c # cs = t @ q \<and> t \<in> lang r"
      then obtain t q where "c # cs = [] @ t @ q" "t \<in> lang r" by auto
      then show ?thesis by blast
    next
      assume "\<exists>p t q. cs = p @ t @ q \<and> t \<in> lang r"
      then obtain p t q where "c # cs = (c # p) @ t @ q" "t \<in> lang r" by auto
      then show ?thesis by blast
    qed
  qed
  show ?case
  proof (cases "rmatch r Map.empty (c # cs)")
    case Nil
    with here Cons.IH split show ?thesis by simp
  next
    case (Cons x xs)
    with here split show ?thesis by (auto split: prod.splits)
  qed
qed

lemma re_search_Some:
  "re_search r s = Some m \<Longrightarrow>
     \<exists>p s1 rest. s = p @ s1 \<and> (m, rest) \<in> set (rmatch r Map.empty s1)"
proof (induction s)
  case Nil
  then have "\<exists>rest. (m, rest) \<in> set (rmatch r Map.empty [])"
    by (auto split: list.splits)
  then show ?case by auto
next
  case (Cons c cs)
  show ?case
  proof (cases "rmatch r Map.empty (c # cs)")
    case Nil
    with Cons.prems have "re_search r cs = Some m" by simp
    from Cons.IH [OF this] obtain p s1 rest where
      "cs = p @ s1" "(m, rest) \<in> set (rmatch r Map.empty s1)" by blast
    then have "c # cs = (c # p) @ s1 \<and> (m, rest) \<in> set (rmatch r Map.empty s1)" by simp
    then show ?thesis by blast
  next
    case (Cons x xs)
    with Cons.prems obtain rest where "(m, rest) \<in> set (rmatch r Map.empty (c # cs))"
      by (cases x) auto
    then have "c # cs = [] @ (c # cs) \<and> (m, rest) \<in> set (rmatch r Map.empty (c # cs))"
      by simp
    then show ?thesis by blast
  qed
qed

lemma rmatch_Seq_elim:
  assumes "(g', s') \<in> set (rmatch (Seq a b) g s)"
  shows "\<exists>g1 s1. (g1, s1) \<in> set (rmatch a g s) \<and> (g', s') \<in> set (rmatch b g1 s1)"
  using assms by auto

lemma rmatch_Group:
  assumes "group_free r" and "(g', s') \<in> set (rmatch (Group n r) g s)"
  shows "\<exists>t \<in> lang r. s = t @ s' \<and> g' = g(n \<mapsto> t)"
proof -
  from assms(2) obtain g1 where m: "(g1, s') \<in> set (rmatch r g s)"
    and g': "g' = g1(n \<mapsto> take (length s - length s') s)"
    by auto
  from rmatch_group_free [OF assms(1) m] have "g1 = g" .
  moreover from rmatch_sound [OF m] obtain t where "t \<in> lang r" "s = t @ s'" by blast
  ultimately show ?thesis using g' by auto
qed

lemma rmatch_Seq_group_free:
  assumes "group_free a" and "(g', s') \<in> set (rmatch (Seq a b) g s)"
  shows "\<exists>s1. (g', s') \<in> set (rmatch b g s1)"
proof -
  from assms(2) obtain g1 s1 where
    m1: "(g1, s1) \<in> set (rmatch a g s)" and m2: "(g', s') \<in> set (rmatch b g1 s1)"
    by auto
  from rmatch_group_free [OF assms(1) m1] m2 show ?thesis by auto
qed

lemma set_pattern_groups:
  assumes "(m, rest) \<in> set (rmatch set_pattern g s)"
  shows "\<exists>t1 t2. t1 \<in> lang number_regex \<and> t2 \<in> lang (Plus Digit) \<and>
                 m 1 = Some t1 \<and> m 2 = Some t2"
proof -
  let ?tail = "Seq (Star Space) (Seq (Opt unit_token) (Seq (Star Space)
                 (Seq separator (Seq (Star Space) (Group 2 (Plus Digit))))))"
  have "set_pattern = Seq (Group 1 number_regex) ?tail"
    by (simp add: set_pattern_def number_regex_def)
  with assms have "(m, rest) \<in> set (rmatch (Seq (Group 1 number_regex) ?tail) g s)"
    by simp
  from rmatch_Seq_elim [OF this] obtain g1 s1 where
    m1: "(g1, s1) \<in> set (rmatch (Group 1 number_regex) g s)" and
    m2: "(m, rest) \<in> set (rmatch ?tail g1 s1)"
    by blast
  have gf: "group_free number_regex" "group_free (Star Space)" "group_free (Opt unit_token)"
    "group_free separator" "group_free (Plus Digit)"
    by (simp_all add: number_regex_def unit_token_def separator_def)
  from rmatch_Group [OF gf(1) m1] obtain t1 where
    t1: "t1 \<in> lang number_regex" "g1 = g(1 \<mapsto> t1)" by blast
  from rmatch_Seq_group_free [OF gf(2) m2] obtain s2 where
    "(m, rest) \<in> set (rmatch (Seq (Opt unit_token) (Seq (Star Space)
                 (Seq separator (Seq (Star Space) (Group 2 (Plus Digit)))))) g1 s2)" by blast
  from rmatch_Seq_group_free [OF gf(3) this] obtain s3 where
    "(m, rest) \<in> set (rmatch (Seq (Star Space)
                 (Seq separator (Seq (Star Space) (Group 2 (Plus Digit))))) g1 s3)" by blast
  from rmatch_Seq_group_free [OF gf(2) this] obtain s4 where
    "(m, rest) \<in> set (rmatch (Seq separator (Seq (Star Space) (Group 2 (Plus Digit)))) g1 s4)"
    by blast
  from rmatch_Seq_group_free [OF gf(4) this] obtain s5 where
    "(m, rest) \<in> set (rmatch (Seq (Star Space) (Group 2 (Plus Digit))) g1 s5)" by blast
  from rmatch_Seq_group_free [OF gf(2) this] obtain s6 where
    "(m, rest) \<in> set (rmatch (Group 2 (Plus Digit)) g1 s6)" by blast
  from rmatch_Group [OF gf(5) this] obtain t2 where
    t2: "t2 \<in> lang (Plus Digit)" "m = g1(2 \<mapsto> t2)" by blast
  from t1 t2 have "m 1 = Some t1 \<and> m 2 = Some t2" by simp
  with t1 t2 show ?thesis by blast
qed

section \<open>\<open>parse_set_line\<close> never raises\<close>

lemma lang_Plus_Digit: "t \<in> lang (Plus Digit) \<longleftrightarrow> is_digits t"
  by (simp add: is_digits_def list_all_iff)

lemma not_digit_point: "\<not> is_digit (CHR ''.'')"
  by (simp add: is_digit_def)

lemma lang_number_regex:
  "t \<in> lang number_regex \<longleftrightarrow>
     (\<exists>ip. is_digits ip \<and> (t = ip \<or> (\<exists>fp. is_digits fp \<and> t = ip @ CHR ''.'' # fp)))"
  unfolding number_regex_def
  by (auto simp: is_digits_def list_all_iff)

lemma py_int_digits: "is_digits t \<Longrightarrow> py_int (Some t) = Inr (int (digits_value t))"
  by simp

lemma py_float_integer:
  assumes "is_digits ip"
  shows "py_float (Some ip) = Inr (of_nat (digits_value ip))"
proof -
  from assms have all: "\<forall>c \<in> set ip. is_digit c" and ne: "ip \<noteq> []"
    by (simp_all add: is_digits_def list_all_iff)
  from all have tw: "takeWhile is_digit ip = ip" "dropWhile is_digit ip = []"
    by (simp_all add: takeWhile_eq_all_conv)
  from ne show ?thesis by (simp add: Let_def tw)
qed

lemma py_float_fraction:
  assumes "is_digits ip" and "is_digits fp"
  shows "py_float (Some (ip @ CHR ''.'' # fp)) =
           Inr (of_nat (digits_value (ip @ fp)) / 10 ^ length fp)"
proof -
  from assms(1) have all: "\<forall>c \<in> set ip. is_digit c" and ne: "ip \<noteq> []"
    by (simp_all add: is_digits_def list_all_iff)
  from all have tw: "takeWhile is_digit (ip @ CHR ''.'' # fp) = ip"
    "dropWhile is_digit (ip @ CHR ''.'' # fp) = CHR ''.'' # fp"
    by (simp_all add: not_digit_point)
  from ne assms(2) show ?thesis by (simp add: Let_def tw)
qed

lemma py_float_number:
  assumes "t \<in> lang number_regex"
  shows "\<exists>q. py_float (Some t) = Inr q \<and> 0 \<le> q"
proof -
  from assms obtain ip where ip: "is_digits ip"
    and t: "t = ip \<or> (\<exists>fp. is_digits fp \<and> t = ip @ CHR ''.'' # fp)"
    unfolding lang_number_regex by blast
  from t show ?thesis
  proof
    assume "t = ip"
    with py_float_integer [OF ip] show ?thesis by simp
  next
    assume "\<exists>fp. is_digits fp \<and> t = ip @ CHR ''.'' # fp"
    then obtain fp where "is_digits fp" "t = ip @ CHR ''.'' # fp" by blast
    with py_float_fraction [OF ip this(1)] show ?thesis by simp
  qed
qed

lemma re_search_set_pattern_groups:
  assumes "re_search set_pattern line = Some m"
  shows "\<exists>t1 t2. t1 \<in> lang number_regex \<and> is_digits t2 \<and>
                 match_group m 1 = Some t1 \<and> match_group m 2 = Some t2"
proof -
  from re_search_Some [OF assms] obtain s1 rest where
    "(m, rest) \<in> set (rmatch set_pattern Map.empty s1)" by blast
  from set_pattern_groups [OF this] obtain t1 t2 where
    "t1 \<in> lang number_regex" "t2 \<in> lang (Plus Digit)" "m 1 = Some t1" "m 2 = Some t2"
    by blast
  then have "t1 \<in> lang number_regex \<and> is_digits t2 \<and>
             match_group m 1 = Some t1 \<and> match_group m 2 = Some t2"
    by (simp add: match_group_def is_digits_def list_all_iff)
  then show ?thesis by blast
qed

lemma parse_set_line_match:
  assumes "re_search set_pattern line = Some m"
  shows "\<exists>number reps. py_float (match_group m 1) = Inr number \<and> 0 \<le> number \<and>
           py_int (match_group m 2) = Inr reps \<and> 0 \<le> reps \<and>
           parse_set_line line =
             Inr (Some (if mentions_kg line then number * kg_to_lbs else number, reps))"
proof -
  from re_search_set_pattern_groups [OF assms] obtain t1 t2 where
    t1: "t1 \<in> lang number_regex" "match_group m 1 = Some t1" and
    t2: "is_digits t2" "match_group m 2 = Some t2" by blast
  from py_float_number [OF t1(1)] obtain q where q: "py_float (Some t1) = Inr q" "0 \<le> q"
    by blast
  from py_int_digits [OF t2(1)] have r: "py_int (Some t2) = Inr (int (digits_value t2))" .
  from q r t1(2) t2(2) assms show ?thesis
    by (simp add: parse_set_line_def)
qed

lemma parse_set_line_no_match:
  "re_search set_pattern line = None \<Longrightarrow> parse_set_line line = Inr None"
  by (simp add: parse_set_line_def)

lemma parse_set_line_cases:
  "parse_set_line line = Inr None \<and> re_search set_pattern line = None \<or>
   (\<exists>w r. parse_set_line line = Inr (Some (w, r)) \<and> 0 \<le> w \<and> 0 \<le> r)"
proof (cases "re_search set_pattern line")
  case None
  then show ?thesis by (simp add: parse_set_line_no_match)
next
  case (Some m)
  from parse_set_line_match [OF this] obtain number reps where
    n: "0 \<le> number" "0 \<le> reps" and
    p: "parse_set_line line =
          Inr (Some (if mentions_kg line then number * kg_to_lbs else number, reps))"
    by blast
  from n have "0 \<le> (if mentions_kg line then number * kg_to_lbs else number)"
    by (simp add: kg_to_lbs_def)
  with p n show ?thesis by blast
qed

section \<open>The loop\<close>




lemma loop_body_other:
  assumes "strip raw \<noteq> []" and "parse_set_line (strip raw) = Inr None"
  shows "loop_body st raw =
           Inr (if looks_like_exercise (strip raw)
                then st\<lparr>current_exercise := Some (strip raw)\<rparr> else st)"
  using assms by (simp add: loop_body_def)








section \<open>Substrings and the two patterns\<close>

lemma contains_iff: "contains s p \<longleftrightarrow> (\<exists>a b. s = a @ p @ b)"
proof (induction s)
  case Nil
  show ?case by auto
next
  case (Cons c cs)
  have "(\<exists>a b. c # cs = a @ p @ b) \<longleftrightarrow> (\<exists>b. c # cs = p @ b) \<or> (\<exists>a b. cs = a @ p @ b)"
  proof
    assume "\<exists>a b. c # cs = a @ p @ b"
    then obtain a b where eq: "c # cs = a @ p @ b" by blast
    show "(\<exists>b. c # cs = p @ b) \<or> (\<exists>a b. cs = a @ p @ b)"
    proof (cases a)
      case Nil
      with eq show ?thesis by auto
    next
      case (Cons c' a')
      with eq have "cs = a' @ p @ b" by simp
      then show ?thesis by blast
    qed
  next
    assume "(\<exists>b. c # cs = p @ b) \<or> (\<exists>a b. cs = a @ p @ b)"
    then show "\<exists>a b. c # cs = a @ p @ b"
    proof
      assume "\<exists>b. c # cs = p @ b"
      then obtain b where "c # cs = [] @ p @ b" by auto
      then show ?thesis by blast
    next
      assume "\<exists>a b. cs = a @ p @ b"
      then obtain a b where "c # cs = (c # a) @ p @ b" by auto
      then show ?thesis by blast
    qed
  qed
  with Cons.IH show ?case by (simp add: startswith_iff)
qed

lemma lang_Seq_mono:
  "lang a \<subseteq> lang a' \<Longrightarrow> lang b \<subseteq> lang b' \<Longrightarrow> lang (Seq a b) \<subseteq> lang (Seq a' b')"
  by (simp only: lang.simps) blast

lemma lang_Seq_skip:
  "[] \<in> lang a \<Longrightarrow> lang b \<subseteq> lang (Seq a b)"
proof
  fix v
  assume "[] \<in> lang a" and "v \<in> lang b"
  then have "[] @ v \<in> lang (Seq a b)" by (simp only: lang.simps) blast
  then show "v \<in> lang (Seq a b)" by simp
qed

lemma lang_Seq_pad:
  "[] \<in> lang b \<Longrightarrow> lang a \<subseteq> lang (Seq a b)"
proof
  fix u
  assume "[] \<in> lang b" and "u \<in> lang a"
  then have "u @ [] \<in> lang (Seq a b)" by (simp only: lang.simps) blast
  then show "u \<in> lang (Seq a b)" by simp
qed

lemma lang_bare_subset: "lang bare_pattern \<subseteq> lang set_pattern"
proof -
  let ?d = "Plus Digit" and ?w = "Star Space"
  have opt: "[] \<in> lang (Opt (Seq (Str ''.'') ?d))"
    by (simp only: lang.simps insertI1)
  have n: "lang ?d \<subseteq> lang (Group 1 (Seq ?d (Opt (Seq (Str ''.'') ?d))))"
    unfolding lang.simps(8) by (rule lang_Seq_pad [OF opt])
  have g: "lang ?d \<subseteq> lang (Group 2 ?d)"
    by (simp only: lang.simps subset_refl)
  have e: "[] \<in> lang (Opt unit_token)" "[] \<in> lang ?w"
    by (simp_all only: lang.simps insertI1 mem_Collect_eq list.pred_inject)
  have t3: "lang (Seq separator (Seq ?w ?d)) \<subseteq> lang (Seq separator (Seq ?w (Group 2 ?d)))"
    by (intro lang_Seq_mono subset_refl g)
  have t2: "lang (Seq separator (Seq ?w ?d))
              \<subseteq> lang (Seq (Opt unit_token) (Seq ?w (Seq separator (Seq ?w (Group 2 ?d)))))"
    using t3 lang_Seq_skip [OF e(2)] lang_Seq_skip [OF e(1)] by blast
  have t1: "lang (Seq ?w (Seq separator (Seq ?w ?d)))
              \<subseteq> lang (Seq ?w (Seq (Opt unit_token)
                     (Seq ?w (Seq separator (Seq ?w (Group 2 ?d))))))"
    by (intro lang_Seq_mono subset_refl t2)
  show ?thesis
    unfolding bare_pattern_def set_pattern_def
    by (intro lang_Seq_mono n t1)
qed

lemma bare_pattern_redundant:
  assumes "re_search set_pattern line = None"
  shows "re_search bare_pattern line = None"
  using assms lang_bare_subset unfolding re_search_None_iff by blast

lemma parse_set_line_recognises:
  "(\<exists>w r. parse_set_line line = Inr (Some (w, r))) \<longleftrightarrow>
     (\<exists>p t q. line = p @ t @ q \<and> t \<in> lang set_pattern)"
proof (cases "re_search set_pattern line")
  case None
  then have n: "parse_set_line line = Inr None" by (rule parse_set_line_no_match)
  from None re_search_None_iff [of set_pattern line]
  have "\<not> (\<exists>p t q. line = p @ t @ q \<and> t \<in> lang set_pattern)"
    by blast
  moreover from n have "\<not> (\<exists>w r. parse_set_line line = Inr (Some (w, r)))"
    by simp
  ultimately show ?thesis by blast
next
  case (Some m)
  from parse_set_line_match [OF Some] have "\<exists>w r. parse_set_line line = Inr (Some (w, r))"
    by blast
  moreover have "\<exists>p t q. line = p @ t @ q \<and> t \<in> lang set_pattern"
  proof (rule ccontr)
    assume "\<not> (\<exists>p t q. line = p @ t @ q \<and> t \<in> lang set_pattern)"
    with re_search_None_iff [of set_pattern line]
    have "re_search set_pattern line = None" by blast
    with Some show False by simp
  qed
  ultimately show ?thesis by blast
qed

section \<open>The test suite, on the model\<close>

text \<open>
  The assertions of tests/test\_parse\_weight\_training.py, evaluated on the definitions
  above. Where a test compares up to a tolerance, the exact value is given.
\<close>

lemma test_parse_basic_lbs: "parse_set_line ''Set 1: 175 lbs x 7'' = Inr (Some (175, 7))"
  by code_simp

lemma test_parse_with_failure_annotation:
  "parse_set_line ''Set 3: 170 lbs x 6 [Failure]'' = Inr (Some (170, 6))"
  by code_simp

lemma test_parse_kg: "parse_set_line ''Set 1: 80 kg x 10'' = Inr (Some (176.3696, 10))"
  by code_simp

lemma test_parse_no_unit: "parse_set_line ''Set 1: 100 x 10'' = Inr (Some (100, 10))"
  by code_simp

lemma test_parse_lowercase_x: "parse_set_line ''50 lbs x 8'' = Inr (Some (50, 8))"
  by code_simp

lemma test_parse_capital_X: "parse_set_line ''50 lbs X 8'' = Inr (Some (50, 8))"
  by code_simp

lemma test_parse_decimal_weight: "parse_set_line ''Set 1: 62.5 lbs x 8'' = Inr (Some (62.5, 8))"
  by code_simp

lemma test_parse_invalid_line: "parse_set_line ''Exercise Name'' = Inr None"
  by code_simp

lemma test_parse_empty_line: "parse_set_line [] = Inr None"
  by code_simp

lemma test_simple_workout:
  "parse_weight_training_description
     (Some (''Bench Press'' @ nl @
            ''Set 1: 135 lbs x 10'' @ nl @
            ''Set 2: 135 lbs x 10'' @ nl @
            ''Set 3: 135 lbs x 10'')) =
   Inr \<lparr>total_volume_lbs = 4050, total_sets = 3, total_reps = 30, exercise_count = 1\<rparr>"
  by code_simp

lemma test_mixed_kg_lbs:
  "parse_weight_training_description (Some mixed_units_log) =
   Inr \<lparr>total_volume_lbs = 1602.31, total_sets = 2, total_reps = 10, exercise_count = 2\<rparr>"
  by code_simp

lemma test_no_exercise_names:
  "parse_weight_training_description
     (Some (''Set 1: 100 lbs x 10'' @ nl @ ''Set 2: 100 lbs x 10'')) =
   Inr \<lparr>total_volume_lbs = 2000, total_sets = 2, total_reps = 20, exercise_count = 0\<rparr>"
  by code_simp

lemma test_activity_with_description:
  "get_weight_training_metrics
     [''description'' \<mapsto>
        Some (''Exercise'' @ nl @ ''Set 1: 100 lbs x 10'' @ nl @ ''Set 2: 100 lbs x 10'')] =
   Inr \<lparr>total_volume_lbs = 2000, total_sets = 2, total_reps = 20, exercise_count = 1\<rparr>"
  by code_simp

lemma test_activity_without_description:
  "get_weight_training_metrics [''name'' \<mapsto> Some ''Workout''] =
   Inr \<lparr>total_volume_lbs = 0, total_sets = 0, total_reps = 0, exercise_count = 0\<rparr>"
  by code_simp

lemma test_activity_with_empty_description:
  "get_weight_training_metrics [''description'' \<mapsto> Some []] =
   Inr \<lparr>total_volume_lbs = 0, total_sets = 0, total_reps = 0, exercise_count = 0\<rparr>"
  by code_simp

text \<open>The separator U+00D7, and a number with two points.\<close>

lemma parse_multiplication_sign:
  "parse_set_line (''60 kg '' @ [CHR 0xD7] @ '' 12'') = Inr (Some (132.2772, 12))"
  by code_simp

lemma parse_leftmost_match: "parse_set_line ''1.5.2x3'' = Inr (Some (5.2, 3))"
  by code_simp

section \<open>The claims\<close>



text \<open>
  C2. The claim is that the unit token is matched in any letter case, so that
  \<open>80 KG x 10\<close> is parsed. The pattern is searched without a flag: on
  \<open>80 KG x 10\<close> the function returns \<open>None\<close>, while the same line with the unit in
  lower case is parsed and converted.
\<close>

theorem upper_case_unit_not_matched:
  "parse_set_line ''80 KG x 10'' = Inr None \<and>
   parse_set_line ''80 kg x 10'' = Inr (Some (176.3696, 10))"
  by code_simp

text \<open>
  C3. One pass of the loop on a line whose stripped text is not empty and on which
  \<open>parse_set_line\<close> fails: if the line has no match of the pattern digits, separator,
  digits, its lower-casing starts with none of \<open>set \<close>, \<open>logged with\<close> and \<open>rep \<close>, and
  it has more than 3 characters, the stripped line becomes the current exercise name and
  nothing else changes; otherwise the local variables are left as they are.
\<close>

theorem exercise_name_rule:
  assumes "strip raw = line" and "line \<noteq> []" and "parse_set_line line = Inr None"
  shows "loop_body st raw =
           Inr (if re_search bare_pattern line = None \<and>
                   \<not> startswith (lower line) ''set '' \<and>
                   \<not> startswith (lower line) ''logged with'' \<and>
                   \<not> startswith (lower line) ''rep '' \<and>
                   3 < length line
                then st\<lparr>current_exercise := Some line\<rparr>
                else st)"
  using assms loop_body_other [of raw st]
  by (simp add: looks_like_exercise_def)

theorem exercise_name_rule_witness:
  "loop_body \<lparr>total_volume = 500, sets_counted = 1, reps_counted = 5,
              exercises = {''Squat''}, current_exercise = Some ''Squat''\<rparr> ''  Bench Press  '' =
     Inr \<lparr>total_volume = 500, sets_counted = 1, reps_counted = 5,
          exercises = {''Squat''}, current_exercise = Some ''Bench Press''\<rparr> \<and>
   loop_body \<lparr>total_volume = 500, sets_counted = 1, reps_counted = 5,
              exercises = {''Squat''}, current_exercise = Some ''Squat''\<rparr> ''Rep scheme'' =
     Inr \<lparr>total_volume = 500, sets_counted = 1, reps_counted = 5,
          exercises = {''Squat''}, current_exercise = Some ''Squat''\<rparr>"
proof -
  let ?st = "\<lparr>total_volume = 500, sets_counted = 1, reps_counted = 5,
              exercises = {''Squat''}, current_exercise = Some ''Squat''\<rparr>"
  have a: "strip ''  Bench Press  '' = ''Bench Press''" "''Bench Press'' \<noteq> []"
    "parse_set_line ''Bench Press'' = Inr None"
    by code_simp+
  have a': "re_search bare_pattern ''Bench Press'' = None \<and>
            \<not> startswith (lower ''Bench Press'') ''set '' \<and>
            \<not> startswith (lower ''Bench Press'') ''logged with'' \<and>
            \<not> startswith (lower ''Bench Press'') ''rep '' \<and>
            3 < length ''Bench Press''"
    by code_simp
  have b: "strip ''Rep scheme'' = ''Rep scheme''" "''Rep scheme'' \<noteq> []"
    "parse_set_line ''Rep scheme'' = Inr None"
    by code_simp+
  have b': "startswith (lower ''Rep scheme'') ''rep ''"
    by code_simp
  from exercise_name_rule [OF a, of ?st] a' exercise_name_rule [OF b, of ?st] b'
  show ?thesis by simp
qed



text \<open>
  C5. For \<open>None\<close> and for the empty string the function returns the result with all four
  fields zero.
\<close>

theorem empty_description_zero:
  "parse_weight_training_description None =
     Inr \<lparr>total_volume_lbs = 0, total_sets = 0, total_reps = 0, exercise_count = 0\<rparr> \<and>
   parse_weight_training_description (Some []) =
     Inr \<lparr>total_volume_lbs = 0, total_sets = 0, total_reps = 0, exercise_count = 0\<rparr>"
  by (simp add: parse_weight_training_description_def zero_metrics_def)

text \<open>
  C6. On the description of \<open>test_hevy_format\<close> the function returns a volume of 7230,
  12 sets, 75 repetitions and 4 exercises.
\<close>

theorem hevy_format:
  "parse_weight_training_description (Some hevy_log) =
     Inr \<lparr>total_volume_lbs = 7230, total_sets = 12, total_reps = 75, exercise_count = 4\<rparr>"
  by code_simp

text \<open>
  C8. \<open>get_weight_training_metrics\<close> returns what \<open>parse_weight_training_description\<close>
  returns on the value under the key \<open>description\<close>, the empty string standing in for a
  missing key and for \<open>None\<close>; in both of these cases the result is all zero.
\<close>

theorem get_weight_training_metrics_delegates:
  "get_weight_training_metrics activity =
     parse_weight_training_description
       (Some (case activity ''description'' of
                None \<Rightarrow> []
              | Some None \<Rightarrow> []
              | Some (Some text) \<Rightarrow> text)) \<and>
   (activity ''description'' = None \<or> activity ''description'' = Some None \<longrightarrow>
      get_weight_training_metrics activity =
        Inr \<lparr>total_volume_lbs = 0, total_sets = 0, total_reps = 0, exercise_count = 0\<rparr>)"
  by (auto simp: get_weight_training_metrics_def dict_get_def or_empty_def
        parse_weight_training_description_def zero_metrics_def split: option.splits)

theorem get_weight_training_metrics_delegates_witness:
  "get_weight_training_metrics [''name'' \<mapsto> Some ''Workout''] =
     Inr \<lparr>total_volume_lbs = 0, total_sets = 0, total_reps = 0, exercise_count = 0\<rparr> \<and>
   get_weight_training_metrics [''description'' \<mapsto> None] =
     Inr \<lparr>total_volume_lbs = 0, total_sets = 0, total_reps = 0, exercise_count = 0\<rparr> \<and>
   get_weight_training_metrics [''description'' \<mapsto> Some mixed_units_log] =
     parse_weight_training_description (Some mixed_units_log)"
proof -
  have a: "[''name'' \<mapsto> Some ''Workout''] ''description'' = None"
    by simp
  have b: "[''description'' \<mapsto> None :: string option] ''description'' = Some None"
    by simp
  have c: "[''description'' \<mapsto> Some mixed_units_log] ''description'' = Some (Some mixed_units_log)"
    by simp
  from get_weight_training_metrics_delegates [of "[''name'' \<mapsto> Some ''Workout'']"] a
  have 1: "get_weight_training_metrics [''name'' \<mapsto> Some ''Workout''] =
     Inr \<lparr>total_volume_lbs = 0, total_sets = 0, total_reps = 0, exercise_count = 0\<rparr>"
    by blast
  from get_weight_training_metrics_delegates [of "[''description'' \<mapsto> None]"] b
  have 2: "get_weight_training_metrics [''description'' \<mapsto> None] =
     Inr \<lparr>total_volume_lbs = 0, total_sets = 0, total_reps = 0, exercise_count = 0\<rparr>"
    by blast
  from get_weight_training_metrics_delegates [of "[''description'' \<mapsto> Some mixed_units_log]"]
  have 3: "get_weight_training_metrics [''description'' \<mapsto> Some mixed_units_log] =
     parse_weight_training_description (Some mixed_units_log)"
    unfolding c by simp
  from 1 2 3 show ?thesis by blast
qed

text \<open>
  C9. On every line on which \<open>parse_set_line\<close> returns \<open>None\<close>, the pattern of line 87
  (digits, optional blanks, separator, optional blanks, digits) has no match either, so
  in the failure branch the first condition never rejects a line: the test for an exercise
  name comes down to the other four conditions.
\<close>

theorem guard_pattern_redundant:
  assumes "parse_set_line line = Inr None"
  shows "re_search bare_pattern line = None \<and>
         (looks_like_exercise line \<longleftrightarrow>
            \<not> startswith (lower line) ''set '' \<and>
            \<not> startswith (lower line) ''logged with'' \<and>
            \<not> startswith (lower line) ''rep '' \<and>
            3 < length line)"
proof -
  from parse_set_line_cases [of line] assms have "re_search set_pattern line = None"
    by auto
  then have "re_search bare_pattern line = None"
    by (rule bare_pattern_redundant)
  then show ?thesis by (simp add: looks_like_exercise_def)
qed

theorem guard_pattern_redundant_witness:
  "re_search bare_pattern ''80 KG x 10'' = None \<and> looks_like_exercise ''80 KG x 10''"
proof -
  have h: "parse_set_line ''80 KG x 10'' = Inr None"
    by code_simp
  have o: "\<not> startswith (lower ''80 KG x 10'') ''set '' \<and>
           \<not> startswith (lower ''80 KG x 10'') ''logged with'' \<and>
           \<not> startswith (lower ''80 KG x 10'') ''rep '' \<and>
           3 < length ''80 KG x 10''"
    by code_simp
  from guard_pattern_redundant [OF h] o show ?thesis by simp
qed



end
